theory Spec2Isabelle
  imports Complex_Main "HOL-Library.Signed_Division"
begin

section \<open>Tegra DVFS: rails, clocks and relationships\<close>

text \<open>
  A shallow embedding of \<^verbatim>\<open>drivers/soc/tegra/tegra-dvfs.c\<close>. Voltages are C \<^verbatim>\<open>int\<close>
  millivolts, modelled as \<^typ>\<open>int\<close> (the values are a few thousand at most, far from the
  32-bit range); rates are \<^verbatim>\<open>unsigned long\<close>, modelled as \<^typ>\<open>nat\<close> (they are only
  compared). A pointer to a rail is the index of the rail in \<^verbatim>\<open>dvfs_rail_list\<close>, a
  pointer to a clock's \<^verbatim>\<open>struct dvfs\<close> is its index in the list of clocks.
  C division truncates, so it is \<open>sdiv\<close>; dividing by zero is undefined in C and \<open>0\<close>
  here, and the theorems that depend on a quotient assume a positive step, which
  \<^verbatim>\<open>tegra_dvfs_init_rails\<close> establishes for a rail with a nonzero maximum.
\<close>

subsection \<open>Errno values and kernel macros\<close>

definition EPERM :: int where "EPERM = 1"
definition ENOENT :: int where "ENOENT = 2"
definition ENODEV :: int where "ENODEV = 19"
definition EINVAL :: int where "EINVAL = 22"

text \<open>\<^verbatim>\<open>DIV_ROUND_UP(n, d)\<close> of \<^verbatim>\<open>linux/kernel.h\<close>: \<^verbatim>\<open>(((n) + (d) - 1) / (d))\<close>.\<close>

definition DIV_ROUND_UP :: "int \<Rightarrow> int \<Rightarrow> int" where
  "DIV_ROUND_UP n d = (n + d - 1) sdiv d"

text \<open>\<^verbatim>\<open>clamp_val(val, lo, hi)\<close> of \<^verbatim>\<open>linux/kernel.h\<close>: an expression whose value is
  \<^verbatim>\<open>min(max(val, lo), hi)\<close>; it assigns nothing.\<close>

definition clamp_val :: "int \<Rightarrow> int \<Rightarrow> int \<Rightarrow> int" where
  "clamp_val val lo hi = min (max val lo) hi"

subsection \<open>Data model\<close>

record dvfs_rail_stats =
  bin_uv :: int
  last_update :: int
  last_index :: int
  time_at_mv :: "int list"
  off :: bool

text \<open>\<^verbatim>\<open>struct dvfs_rail\<close>. \<open>reg\<close> says whether the regulator pointer is non-NULL; the
  thermal tables hold the \<^verbatim>\<open>mv\<close> of each entry and are \<open>None\<close> for a NULL pointer. The
  list heads \<^verbatim>\<open>dvfs\<close>, \<^verbatim>\<open>relationships_from\<close> and \<^verbatim>\<open>relationships_to\<close> are derived
  from the clocks and the relationships of the state (see below).\<close>

record dvfs_rail =
  reg :: bool
  millivolts :: int
  new_millivolts :: int
  min_millivolts :: int
  max_millivolts :: int
  nominal_millivolts :: int
  disable_millivolts :: int
  suspend_millivolts :: int
  override_millivolts :: int
  step :: int
  step_up :: int
  disabled :: bool
  suspended :: bool
  dfll_mode :: bool
  resolving_to :: bool
  jmp_to_zero :: bool
  in_band_pm :: bool
  therm_floors :: "int list option"
  therm_floors_size :: int
  therm_floor_idx :: int
  therm_caps :: "int list option"
  therm_cap_idx :: int
  stats :: dvfs_rail_stats

text \<open>\<^verbatim>\<open>struct dvfs_relationship\<close>: the two rails and the solver function pointer.\<close>

record dvfs_relationship =
  from_rail :: nat
  to_rail :: nat
  solved_at_nominal :: bool
  solve :: "dvfs_rail \<Rightarrow> dvfs_rail \<Rightarrow> int"

text \<open>\<^verbatim>\<open>struct dvfs\<close>: the voltage requirement of one clock. The tables
  \<^verbatim>\<open>millivolts\<close> and \<^verbatim>\<open>max_millivolts\<close> of the clock carry the prefix \<open>dvfs_\<close>, since the
  rail has fields of the same names, and the pointer \<^verbatim>\<open>dvfs_rail\<close> to the rail of the clock
  is \<open>rail_of\<close>, since the update function of a field \<open>dvfs_rail\<close> would be named as the
  function \<^verbatim>\<open>dvfs_rail_update\<close> is.\<close>

record dvfs =
  clk :: nat
  rail_of :: nat
  freqs :: "nat list"
  alt_freqs :: "nat list option"
  dvfs_millivolts :: "int list option"
  dfll_millivolts :: "int list option"
  num_freqs :: nat
  cur_rate :: nat
  cur_millivolts :: int
  dvfs_max_millivolts :: int
  use_alt_freqs :: bool
  use_dfll_rate_min :: nat

text \<open>The mutable state under \<^verbatim>\<open>dvfs_lock\<close>: the rails in list order, the clocks, the
  registered relationships, and what the outside has seen: the calls of
  \<^verbatim>\<open>regulator_set_voltage\<close> (rail, min uV, max uV), oldest first, and the number of
  \<^verbatim>\<open>ktime_get\<close> reads.\<close>

record dvfs_state =
  rails :: "dvfs_rail list"
  clocks :: "dvfs list"
  rels :: "dvfs_relationship list"
  reg_calls :: "(nat \<times> int \<times> int) list"
  ktime_reads :: nat

text \<open>What the code takes from outside: the regulator's answer to a call (it may depend
  on the calls before it), the clock read by \<^verbatim>\<open>ktime_get\<close>, and the declarations of
  \<^verbatim>\<open>soc/tegra/tegra-dvfs.h\<close> that the functions below use: the constant
  \<^verbatim>\<open>DVFS_RAIL_STATS_TOP_BIN\<close> and the inline predicates on a clock and a rate.\<close>

record dvfs_env =
  regulator_set_voltage :: "(nat \<times> int \<times> int) list \<Rightarrow> nat \<times> int \<times> int \<Rightarrow> int"
  ktime_get :: "nat \<Rightarrow> int"
  DVFS_RAIL_STATS_TOP_BIN :: int
  tegra_dvfs_is_dfll_scale :: "dvfs_state \<Rightarrow> nat \<Rightarrow> nat \<Rightarrow> bool"
  tegra_dvfs_is_dfll_range_entry :: "dvfs_state \<Rightarrow> nat \<Rightarrow> nat \<Rightarrow> bool"

type_synonym dvfs_result = "(int \<times> dvfs_state) option"

text \<open>\<^verbatim>\<open>tegra_dvfs_add_relationships\<close> appends each relationship to the
  \<^verbatim>\<open>relationships_from\<close> list of its \<open>to\<close> rail and to the \<^verbatim>\<open>relationships_to\<close> list of
  its \<open>from\<close> rail, and \<^verbatim>\<open>tegra_setup_dvfs\<close> appends a clock to the \<^verbatim>\<open>dvfs\<close> list of its
  rail: the lists are the registered entries of that rail, in registration order.\<close>

definition relationships_from :: "dvfs_state \<Rightarrow> nat \<Rightarrow> dvfs_relationship list" where
  "relationships_from s rail = filter (\<lambda>rel. to_rail rel = rail) (rels s)"

definition relationships_to :: "dvfs_state \<Rightarrow> nat \<Rightarrow> dvfs_relationship list" where
  "relationships_to s rail = filter (\<lambda>rel. from_rail rel = rail) (rels s)"

definition rail_dvfs :: "dvfs_state \<Rightarrow> nat \<Rightarrow> nat list" where
  "rail_dvfs s rail = filter (\<lambda>d. rail_of (clocks s ! d) = rail) [0..<length (clocks s)]"

definition set_rail :: "nat \<Rightarrow> (dvfs_rail \<Rightarrow> dvfs_rail) \<Rightarrow> dvfs_state \<Rightarrow> dvfs_state" where
  "set_rail rail f s = s\<lparr>rails := (rails s)[rail := f (rails s ! rail)]\<rparr>"

definition tegra_dvfs_rail_get_disable_level :: "dvfs_rail \<Rightarrow> int" where
  "tegra_dvfs_rail_get_disable_level rail =
     (if disable_millivolts rail \<noteq> 0 then disable_millivolts rail else nominal_millivolts rail)"


subsection \<open>Statistics and the regulator\<close>

definition stats_index :: "dvfs_env \<Rightarrow> dvfs_rail \<Rightarrow> int \<Rightarrow> int" where
  "stats_index env rail mv =
     min (1 + (2 * (mv - min_millivolts rail) * 1000 + bin_uv (stats rail))
              sdiv (2 * bin_uv (stats rail)))
         (DVFS_RAIL_STATS_TOP_BIN env)"

definition dvfs_rail_stats_update :: "dvfs_env \<Rightarrow> dvfs_rail \<Rightarrow> int \<Rightarrow> int \<Rightarrow> dvfs_rail" where
  "dvfs_rail_stats_update env rail mv now =
     (let st = stats rail;
          i = nat (last_index st);
          st1 = st\<lparr>time_at_mv := (time_at_mv st)[i := time_at_mv st ! i + (now - last_update st)],
                   last_update := now\<rparr>
      in if off st1 then rail\<lparr>stats := st1\<rparr>
         else if mv \<ge> min_millivolts rail
           then rail\<lparr>stats := st1\<lparr>last_index := stats_index env rail mv\<rparr>\<rparr>
         else if mv = 0 then rail\<lparr>stats := st1\<lparr>last_index := 0\<rparr>\<rparr>
         else rail\<lparr>stats := st1\<rparr>)"

text \<open>\<^verbatim>\<open>dvfs_rail_stats_update(rail, mv, ktime_get())\<close> on the rail in the state.\<close>

definition stats_update_now :: "dvfs_env \<Rightarrow> nat \<Rightarrow> int \<Rightarrow> dvfs_state \<Rightarrow> dvfs_state" where
  "stats_update_now env rail mv s =
     (set_rail rail (\<lambda>r. dvfs_rail_stats_update env r mv (ktime_get env (ktime_reads s))) s)
       \<lparr>ktime_reads := Suc (ktime_reads s)\<rparr>"

definition dvfs_rail_set_voltage_reg ::
  "dvfs_env \<Rightarrow> nat \<Rightarrow> int \<Rightarrow> dvfs_state \<Rightarrow> int \<times> dvfs_state" where
  "dvfs_rail_set_voltage_reg env rail mv s =
     (let call = (rail, mv * 1000, max_millivolts (rails s ! rail) * 1000)
      in (regulator_set_voltage env (reg_calls s) call, s\<lparr>reg_calls := reg_calls s @ [call]\<rparr>))"

subsection \<open>The ramp engine: \<^verbatim>\<open>dvfs_rail_set_voltage\<close>\<close>

text \<open>The two loops over \<^verbatim>\<open>rail->relationships_to\<close>: call \<^verbatim>\<open>dvfs_rail_update\<close> (here the
  parameter \<open>U\<close>) on the \<open>to\<close> rail of each relationship, and leave at the first nonzero
  return value.\<close>

fun update_to_rails ::
  "(nat \<Rightarrow> dvfs_state \<Rightarrow> dvfs_result) \<Rightarrow> dvfs_relationship list \<Rightarrow> dvfs_state \<Rightarrow> dvfs_result" where
  "update_to_rails U [] s = Some (0, s)"
| "update_to_rails U (rel # rest) s =
     (case U (to_rail rel) s of
        None \<Rightarrow> None
      | Some (ret, s1) \<Rightarrow> if ret \<noteq> 0 then Some (ret, s1) else update_to_rails U rest s1)"

text \<open>One iteration of the \<^verbatim>\<open>for (i = 0; i < steps; i++)\<close> loop: the next voltage, the
  updates of the dependent rails, the regulator write, the new current voltage with its
  statistics, and the updates of the dependent rails again. A nonzero return value is
  the \<^verbatim>\<open>goto out\<close>.\<close>

definition set_voltage_step ::
  "(nat \<Rightarrow> dvfs_state \<Rightarrow> dvfs_result) \<Rightarrow> dvfs_env \<Rightarrow> nat \<Rightarrow> int \<Rightarrow> int \<Rightarrow> int \<Rightarrow> bool \<Rightarrow>
   dvfs_state \<Rightarrow> dvfs_result" where
  "set_voltage_step U env rail mv stp offset jmp s =
     (let cur = millivolts (rails s ! rail);
          new = (if \<not> jmp \<and> \<bar>mv - cur\<bar> > stp then cur + offset else mv);
          s1 = set_rail rail (\<lambda>r. r\<lparr>new_millivolts := new\<rparr>) s
      in case update_to_rails U (relationships_to s1 rail) s1 of
           None \<Rightarrow> None
         | Some (ret, s2) \<Rightarrow>
             if ret \<noteq> 0 then Some (ret, s2)
             else
               (case dvfs_rail_set_voltage_reg env rail (new_millivolts (rails s2 ! rail)) s2 of
                  (ret, s3) \<Rightarrow>
                    if ret \<noteq> 0 then Some (ret, s3)
                    else
                      (let s4 = set_rail rail (\<lambda>r. r\<lparr>millivolts := new_millivolts r\<rparr>) s3;
                           s5 = stats_update_now env rail (millivolts (rails s4 ! rail)) s4
                       in update_to_rails U (relationships_to s5 rail) s5)))"

text \<open>The loop itself, with the number of iterations left as the recursion argument.\<close>

fun set_voltage_steps ::
  "(nat \<Rightarrow> dvfs_state \<Rightarrow> dvfs_result) \<Rightarrow> dvfs_env \<Rightarrow> nat \<Rightarrow> int \<Rightarrow> int \<Rightarrow> int \<Rightarrow> bool \<Rightarrow>
   nat \<Rightarrow> dvfs_state \<Rightarrow> dvfs_result" where
  "set_voltage_steps U env rail mv stp offset jmp 0 s = Some (0, s)"
| "set_voltage_steps U env rail mv stp offset jmp (Suc n) s =
     (case set_voltage_step U env rail mv stp offset jmp s of
        None \<Rightarrow> None
      | Some (ret, s1) \<Rightarrow>
          if ret \<noteq> 0 then Some (ret, s1)
          else set_voltage_steps U env rail mv stp offset jmp n s1)"

text \<open>\<^verbatim>\<open>dvfs_rail_set_voltage\<close>, with \<^verbatim>\<open>dvfs_rail_update\<close> as the parameter \<open>U\<close>.\<close>

definition set_voltage_with ::
  "(nat \<Rightarrow> dvfs_state \<Rightarrow> dvfs_result) \<Rightarrow> dvfs_env \<Rightarrow> nat \<Rightarrow> int \<Rightarrow> dvfs_state \<Rightarrow> dvfs_result" where
  "set_voltage_with U env rail mv s =
     (let r = rails s ! rail in
      if \<not> reg r then (if mv = millivolts r then Some (0, s) else Some (- EINVAL, s))
      else
        (let stp = (if mv > millivolts r then step_up r else step r);
             offset = (if mv > millivolts r then stp else - stp)
         in if dfll_mode r
            then Some (0, stats_update_now env rail mv
                            (set_rail rail (\<lambda>r. r\<lparr>millivolts := mv, new_millivolts := mv\<rparr>) s))
            else if disabled r then Some (0, s)
            else
              (let s1 = set_rail rail (\<lambda>r. r\<lparr>resolving_to := True\<rparr>) s;
                   jmp = (jmp_to_zero r \<and> (mv = 0 \<or> millivolts r = 0));
                   steps = (if jmp \<or> (in_band_pm r \<and> off (stats r)) then 1
                            else DIV_ROUND_UP \<bar>mv - millivolts r\<bar> stp)
               in case set_voltage_steps U env rail mv stp offset jmp (nat steps) s1 of
                    None \<Rightarrow> None
                  | Some (ret, s2) \<Rightarrow>
                      Some (if ret = 0 \<and> millivolts (rails s2 ! rail) \<noteq> mv
                            then - EINVAL else ret,
                            set_rail rail (\<lambda>r. r\<lparr>resolving_to := False\<rparr>) s2))))"

subsection \<open>The resolver: \<^verbatim>\<open>dvfs_rail_update\<close>\<close>

definition dvfs_rail_apply_limits :: "dvfs_rail \<Rightarrow> int \<Rightarrow> int" where
  "dvfs_rail_apply_limits rail mv =
     (let min_mv = (case therm_floors rail of
                      None \<Rightarrow> min_millivolts rail
                    | Some floors \<Rightarrow>
                        if therm_floor_idx rail < therm_floors_size rail
                        then floors ! nat (therm_floor_idx rail) else min_millivolts rail);
          max_mv = (case therm_caps rail of
                      None \<Rightarrow> max_millivolts rail
                    | Some caps \<Rightarrow>
                        if therm_cap_idx rail > 0
                        then caps ! nat (therm_cap_idx rail - 1) else max_millivolts rail);
          mv = (if override_millivolts rail \<noteq> 0 then override_millivolts rail else mv);
          _ = clamp_val mv min_mv max_mv
      in mv)"

definition dvfs_solve_relationship :: "dvfs_state \<Rightarrow> dvfs_relationship \<Rightarrow> int" where
  "dvfs_solve_relationship s rel =
     solve rel (rails s ! from_rail rel) (rails s ! to_rail rel)"

text \<open>The loop over \<^verbatim>\<open>rail->relationships_from\<close>: each solver's value is stored in
  \<^verbatim>\<open>rail->new_millivolts\<close> before the next solver runs.\<close>

fun solve_from_rails :: "nat \<Rightarrow> dvfs_relationship list \<Rightarrow> dvfs_state \<Rightarrow> dvfs_state" where
  "solve_from_rails rail [] s = s"
| "solve_from_rails rail (rel # rest) s =
     solve_from_rails rail rest
       (set_rail rail (\<lambda>r. r\<lparr>new_millivolts := dvfs_solve_relationship s rel\<rparr>) s)"

text \<open>The retry loop \<^verbatim>\<open>for (; steps >= 0; steps--)\<close>, with \<^verbatim>\<open>dvfs_rail_set_voltage\<close> as the
  parameter \<open>V\<close>. The return value of a ramp is kept in \<open>ret\<close> and not tested. The last
  argument counts the iterations entered; it is returned beside the result and is not
  part of the C state.\<close>

function update_retry ::
  "(nat \<Rightarrow> int \<Rightarrow> dvfs_state \<Rightarrow> dvfs_result) \<Rightarrow> nat \<Rightarrow> int \<Rightarrow> int \<Rightarrow> int \<Rightarrow> dvfs_state \<Rightarrow> nat \<Rightarrow>
   ((int \<times> dvfs_state) \<times> nat) option" where
  "update_retry V rail mv steps ret s iters =
     (if steps < 0 then Some ((ret, s), iters)
      else
        (let s1 = set_rail rail (\<lambda>r. r\<lparr>new_millivolts := mv\<rparr>) s;
             s2 = solve_from_rails rail (relationships_from s1 rail) s1
         in if new_millivolts (rails s2 ! rail) = millivolts (rails s2 ! rail)
            then Some ((ret, s2), Suc iters)
            else
              (case V rail (new_millivolts (rails s2 ! rail)) s2 of
                 None \<Rightarrow> None
               | Some (ret', s3) \<Rightarrow> update_retry V rail mv (steps - 1) ret' s3 (Suc iters))))"
  by pat_completeness auto
termination
  by (relation "measure (\<lambda>(V, rail, mv, steps, ret, s, iters). nat (steps + 1))") auto

text \<open>\<^verbatim>\<open>dvfs_rail_update\<close>, with \<^verbatim>\<open>dvfs_rail_set_voltage\<close> as the parameter \<open>V\<close>:
  first the part from the computation of \<^verbatim>\<open>steps\<close> on, for the demand \<open>mv\<close>.\<close>

definition update_resolve ::
  "(nat \<Rightarrow> int \<Rightarrow> dvfs_state \<Rightarrow> dvfs_result) \<Rightarrow> nat \<Rightarrow> int \<Rightarrow> dvfs_state \<Rightarrow> dvfs_result" where
  "update_resolve V rail mv s =
     (let steps = DIV_ROUND_UP \<bar>mv - millivolts (rails s ! rail)\<bar> (step (rails s ! rail))
      in map_option fst (update_retry V rail mv steps 0 s 0))"

definition max_cur_millivolts :: "dvfs_state \<Rightarrow> nat \<Rightarrow> int" where
  "max_cur_millivolts s rail =
     fold (\<lambda>d mv. max (cur_millivolts (clocks s ! d)) mv) (rail_dvfs s rail) 0"

definition update_with ::
  "(nat \<Rightarrow> int \<Rightarrow> dvfs_state \<Rightarrow> dvfs_result) \<Rightarrow> nat \<Rightarrow> dvfs_state \<Rightarrow> dvfs_result" where
  "update_with V rail s =
     (let r = rails s ! rail in
      if disabled r then Some (0, s)
      else if suspended r then Some (0, s)
      else if \<not> reg r then Some (0, s)
      else if resolving_to r then Some (0, s)
      else
        (let mv = max_cur_millivolts s rail
         in if mv \<noteq> 0 then update_resolve V rail (dvfs_rail_apply_limits r mv) s
            else if in_band_pm r then Some (0, s)
            else if \<not> jmp_to_zero r then Some (0, s)
            else update_resolve V rail mv s))"


text \<open>The two functions call each other. The first argument bounds the depth at which
  ramps nest (a ramp that updates a rail that ramps, and so on); \<open>None\<close> says that the
  depth was not enough.\<close>

primrec dvfs_rail_update :: "nat \<Rightarrow> dvfs_env \<Rightarrow> nat \<Rightarrow> dvfs_state \<Rightarrow> dvfs_result" where
  "dvfs_rail_update 0 env rail s = None"
| "dvfs_rail_update (Suc fuel) env rail s =
     update_with (set_voltage_with (dvfs_rail_update fuel env) env) rail s"

definition dvfs_rail_set_voltage ::
  "nat \<Rightarrow> dvfs_env \<Rightarrow> nat \<Rightarrow> int \<Rightarrow> dvfs_state \<Rightarrow> dvfs_result" where
  "dvfs_rail_set_voltage fuel env rail mv s =
     set_voltage_with (dvfs_rail_update fuel env) env rail mv s"

subsection \<open>Clock rate changes\<close>

definition dvfs_get_millivolts :: "dvfs_env \<Rightarrow> dvfs_state \<Rightarrow> nat \<Rightarrow> nat \<Rightarrow> int list option" where
  "dvfs_get_millivolts env s d rate =
     (if tegra_dvfs_is_dfll_scale env s d rate then dfll_millivolts (clocks s ! d)
      else dvfs_millivolts (clocks s ! d))"

text \<open>\<^verbatim>\<open>dvfs_get_freqs\<close>: \<^verbatim>\<open>freqs\<close> is an array inside the structure and \<^verbatim>\<open>alt_freqs\<close> a
  pointer, so only the alternate table can be NULL.\<close>

definition dvfs_get_freqs :: "dvfs \<Rightarrow> nat list option" where
  "dvfs_get_freqs d = (if use_alt_freqs d then alt_freqs d else Some (freqs d))"

text \<open>\<^verbatim>\<open>while (i < d->num_freqs && rate > freqs[i]) i++;\<close>\<close>

function rate_index :: "nat list \<Rightarrow> nat \<Rightarrow> nat \<Rightarrow> nat \<Rightarrow> nat" where
  "rate_index fs n rate i = (if i < n \<and> rate > fs ! i then rate_index fs n rate (Suc i) else i)"
  by pat_completeness auto
termination
  by (relation "measure (\<lambda>(fs, n, rate, i). n - i)") auto

definition set_clock :: "nat \<Rightarrow> (dvfs \<Rightarrow> dvfs) \<Rightarrow> dvfs_state \<Rightarrow> dvfs_state" where
  "set_clock d f s = s\<lparr>clocks := (clocks s)[d := f (clocks s ! d)]\<rparr>"

text \<open>\<^verbatim>\<open>__tegra_dvfs_set_rate\<close>, the rate change with \<^verbatim>\<open>dvfs_lock\<close> held.\<close>

definition tegra_dvfs_set_rate_locked ::
  "nat \<Rightarrow> dvfs_env \<Rightarrow> nat \<Rightarrow> nat \<Rightarrow> dvfs_state \<Rightarrow> dvfs_result" where
  "tegra_dvfs_set_rate_locked fuel env d rate s =
     (case (dvfs_get_freqs (clocks s ! d), dvfs_get_millivolts env s d rate) of
        (Some fs, Some mvs) \<Rightarrow>
          (let rate = (if tegra_dvfs_is_dfll_range_entry env s d rate
                       then use_dfll_rate_min (clocks s ! d) else rate)
           in if rate > fs ! (num_freqs (clocks s ! d) - 1) then Some (- EINVAL, s)
              else if rate = 0
              then dvfs_rail_update fuel env (rail_of (clocks s ! d))
                     (set_clock d (\<lambda>c. c\<lparr>cur_millivolts := 0, cur_rate := rate\<rparr>) s)
              else
                (let i = rate_index fs (num_freqs (clocks s ! d)) rate 0
                 in if dvfs_max_millivolts (clocks s ! d) \<noteq> 0 \<and>
                       mvs ! i > dvfs_max_millivolts (clocks s ! d)
                    then Some (- EINVAL, s)
                    else dvfs_rail_update fuel env (rail_of (clocks s ! d))
                           (set_clock d (\<lambda>c. c\<lparr>cur_millivolts := mvs ! i, cur_rate := rate\<rparr>) s)))
      | _ \<Rightarrow> Some (- ENODEV, s))"

text \<open>\<^verbatim>\<open>tegra_clk_to_dvfs\<close>: the rails in list order, the clocks of each rail in
  registration order, the first clock that matches.\<close>

definition tegra_clk_to_dvfs :: "dvfs_state \<Rightarrow> nat \<Rightarrow> nat option" where
  "tegra_clk_to_dvfs s c =
     find (\<lambda>d. clk (clocks s ! d) = c)
       (concat (map (rail_dvfs s) [0..<length (rails s)]))"

text \<open>The body of the \<^verbatim>\<open>if\<close> in \<^verbatim>\<open>tegra_dvfs_use_alt_freqs_on_clk\<close>: swap the table, set
  the current rate again, and on failure swap back, set the rate once more and return
  \<^verbatim>\<open>-EINVAL\<close>.\<close>

definition use_alt_freqs_apply :: "nat \<Rightarrow> dvfs_env \<Rightarrow> nat \<Rightarrow> bool \<Rightarrow> dvfs_state \<Rightarrow> dvfs_result" where
  "use_alt_freqs_apply fuel env d use_alt_freq s =
     (if use_alt_freqs (clocks s ! d) \<noteq> use_alt_freq
      then
        (let s1 = set_clock d (\<lambda>c. c\<lparr>use_alt_freqs := use_alt_freq\<rparr>) s
         in case tegra_dvfs_set_rate_locked fuel env d (cur_rate (clocks s1 ! d)) s1 of
              None \<Rightarrow> None
            | Some (ret, s2) \<Rightarrow>
                if ret < 0
                then
                  (let s3 = set_clock d (\<lambda>c. c\<lparr>use_alt_freqs := \<not> use_alt_freq\<rparr>) s2
                   in case tegra_dvfs_set_rate_locked fuel env d (cur_rate (clocks s3 ! d)) s3 of
                        None \<Rightarrow> None
                      | Some (ret', s4) \<Rightarrow> Some (- EINVAL, s4))
                else Some (0, s2))
      else Some (0, s))"

text \<open>\<^verbatim>\<open>tegra_dvfs_use_alt_freqs_on_clk\<close>. The condition is \<^verbatim>\<open>!d && d->alt_freqs\<close>: when
  \<^verbatim>\<open>d\<close> is NULL the second operand reads through the null pointer (the left summand),
  and when \<^verbatim>\<open>d\<close> is a clock the first operand is false.\<close>

datatype fault = NullPointerDereference

definition tegra_dvfs_use_alt_freqs_on_clk ::
  "nat \<Rightarrow> dvfs_env \<Rightarrow> nat \<Rightarrow> bool \<Rightarrow> dvfs_state \<Rightarrow> fault + dvfs_result" where
  "tegra_dvfs_use_alt_freqs_on_clk fuel env c use_alt_freq s =
     (case tegra_clk_to_dvfs s c of
        None \<Rightarrow> Inl NullPointerDereference
      | Some d \<Rightarrow>
          (let not_d = False
           in if not_d \<and> alt_freqs (clocks s ! d) \<noteq> None
              then Inr (use_alt_freqs_apply fuel env d use_alt_freq s)
              else Inr (Some (- ENOENT, s))))"

subsection \<open>Suspend and resume\<close>









section \<open>Example systems\<close>

text \<open>Small concrete systems, used to instantiate the theorems below.\<close>

definition example_stats :: dvfs_rail_stats where
  "example_stats = \<lparr>bin_uv = 12500, last_update = 0, last_index = 0,
     time_at_mv = replicate 4 0, off = False\<rparr>"

definition example_rail :: dvfs_rail where
  "example_rail = \<lparr>reg = True, millivolts = 800, new_millivolts = 800, min_millivolts = 700,
     max_millivolts = 1200, nominal_millivolts = 1000, disable_millivolts = 0,
     suspend_millivolts = 0, override_millivolts = 0, step = 50, step_up = 50,
     disabled = False, suspended = False, dfll_mode = False, resolving_to = False,
     jmp_to_zero = False, in_band_pm = False, therm_floors = None, therm_floors_size = 0,
     therm_floor_idx = 0, therm_caps = None, therm_cap_idx = 0, stats = example_stats\<rparr>"

definition example_env :: dvfs_env where
  "example_env = \<lparr>regulator_set_voltage = (\<lambda>log call. 0), ktime_get = int,
     DVFS_RAIL_STATS_TOP_BIN = 3, tegra_dvfs_is_dfll_scale = (\<lambda>s d rate. False),
     tegra_dvfs_is_dfll_range_entry = (\<lambda>s d rate. False)\<rparr>"


definition example_clock :: dvfs where
  "example_clock = \<lparr>clk = 0, rail_of = 0, freqs = [100, 200, 300], alt_freqs = None,
     dvfs_millivolts = Some [650, 850, 1000], dfll_millivolts = None, num_freqs = 3,
     cur_rate = 100, cur_millivolts = 650, dvfs_max_millivolts = 0, use_alt_freqs = False,
     use_dfll_rate_min = 0\<rparr>"


definition low_demand_state :: dvfs_state where
  "low_demand_state = \<lparr>rails = [example_rail\<lparr>millivolts := 700, new_millivolts := 700\<rparr>],
     clocks = [example_clock], rels = [], reg_calls = [], ktime_reads = 0\<rparr>"

definition raised_floor_state :: dvfs_state where
  "raised_floor_state =
     \<lparr>rails = [example_rail\<lparr>millivolts := 900, new_millivolts := 900,
                therm_floors := Some [950, 900], therm_floors_size := 2, therm_floor_idx := 0\<rparr>],
      clocks = [example_clock\<lparr>cur_rate := 200, cur_millivolts := 850\<rparr>], rels = [],
      reg_calls = [], ktime_reads = 0\<rparr>"




definition clocked_state :: dvfs_state where
  "clocked_state = \<lparr>rails = [example_rail],
     clocks = [example_clock\<lparr>alt_freqs := Some [150, 250, 350], use_dfll_rate_min := 200\<rparr>],
     rels = [], reg_calls = [], ktime_reads = 0\<rparr>"

text \<open>An environment whose range-entry predicate holds when a running clock below
  \<^verbatim>\<open>use_dfll_rate_min\<close> is asked for a rate at or above it.\<close>

definition range_entry_env :: dvfs_env where
  "range_entry_env = example_env\<lparr>tegra_dvfs_is_dfll_range_entry :=
     (\<lambda>s d rate. cur_rate (clocks s ! d) \<noteq> 0 \<and> rate \<ge> use_dfll_rate_min (clocks s ! d) \<and>
                  cur_rate (clocks s ! d) < use_dfll_rate_min (clocks s ! d))\<rparr>"







section \<open>Proof notions\<close>

text \<open>What a ramp and a resolve never change: every field of a rail but the two voltages
  and the statistics.\<close>

definition rail_static :: "dvfs_rail \<Rightarrow> dvfs_rail" where
  "rail_static r = r\<lparr>millivolts := 0, new_millivolts := 0,
     stats := \<lparr>bin_uv = 0, last_update = 0, last_index = 0, time_at_mv = [], off = False\<rparr>\<rparr>"




definition frame :: "nat set \<Rightarrow> dvfs_state \<Rightarrow> dvfs_state \<Rightarrow> bool" where
  "frame G s s' \<longleftrightarrow>
     rels s' = rels s \<and> clocks s' = clocks s \<and>
     map rail_static (rails s') = map rail_static (rails s) \<and>
     (\<forall>i\<in>G. rails s' ! i = rails s ! i) \<and>
     (\<exists>calls. reg_calls s' = reg_calls s @ calls \<and> (\<forall>c\<in>set calls. fst c \<notin> G))"




section \<open>Basic facts\<close>

lemma set_rail_simps [simp]:
  "rails (set_rail i f s) = (rails s)[i := f (rails s ! i)]"
  "rels (set_rail i f s) = rels s"
  "clocks (set_rail i f s) = clocks s"
  "reg_calls (set_rail i f s) = reg_calls s"
  "ktime_reads (set_rail i f s) = ktime_reads s"
  by (simp_all add: set_rail_def)

lemma stats_update_eq:
  "dvfs_rail_stats_update env r mv now = r\<lparr>stats := stats (dvfs_rail_stats_update env r mv now)\<rparr>"
  by (simp add: dvfs_rail_stats_update_def Let_def)

lemma stats_update_now_simps [simp]:
  "rails (stats_update_now env i mv s) =
     (rails s)[i := dvfs_rail_stats_update env (rails s ! i) mv (ktime_get env (ktime_reads s))]"
  "rels (stats_update_now env i mv s) = rels s"
  "clocks (stats_update_now env i mv s) = clocks s"
  "reg_calls (stats_update_now env i mv s) = reg_calls s"
  by (simp_all add: stats_update_now_def)

lemma set_voltage_reg_simps [simp]:
  "fst (dvfs_rail_set_voltage_reg env i mv s) =
     regulator_set_voltage env (reg_calls s) (i, mv * 1000, max_millivolts (rails s ! i) * 1000)"
  "rails (snd (dvfs_rail_set_voltage_reg env i mv s)) = rails s"
  "rels (snd (dvfs_rail_set_voltage_reg env i mv s)) = rels s"
  "clocks (snd (dvfs_rail_set_voltage_reg env i mv s)) = clocks s"
  "reg_calls (snd (dvfs_rail_set_voltage_reg env i mv s)) =
     reg_calls s @ [(i, mv * 1000, max_millivolts (rails s ! i) * 1000)]"
  by (simp_all add: dvfs_rail_set_voltage_reg_def Let_def)

lemma relationships_to_cong: "rels s' = rels s \<Longrightarrow> relationships_to s' i = relationships_to s i"
  by (simp add: relationships_to_def)

lemma relationships_from_cong: "rels s' = rels s \<Longrightarrow> relationships_from s' i = relationships_from s i"
  by (simp add: relationships_from_def)

section \<open>The frame of a ramp\<close>

lemma frame_refl [simp]: "frame G s s"
  by (simp add: frame_def)

lemma frame_trans:
  assumes "frame G s s1" "frame G s1 s2"
  shows "frame G s s2"
proof -
  from assms(1) obtain c1 where c1: "reg_calls s1 = reg_calls s @ c1" "\<forall>c\<in>set c1. fst c \<notin> G"
    unfolding frame_def by blast
  from assms(2) obtain c2 where c2: "reg_calls s2 = reg_calls s1 @ c2" "\<forall>c\<in>set c2. fst c \<notin> G"
    unfolding frame_def by blast
  have "reg_calls s2 = reg_calls s @ (c1 @ c2)" "\<forall>c\<in>set (c1 @ c2). fst c \<notin> G"
    using c1 c2 by auto
  then have "\<exists>calls. reg_calls s2 = reg_calls s @ calls \<and> (\<forall>c\<in>set calls. fst c \<notin> G)"
    by blast
  moreover have "rels s2 = rels s" "clocks s2 = clocks s"
    "map rail_static (rails s2) = map rail_static (rails s)" "\<forall>i\<in>G. rails s2 ! i = rails s ! i"
    using assms unfolding frame_def by simp_all
  ultimately show ?thesis unfolding frame_def by simp
qed


lemma frame_length: "frame G s s' \<Longrightarrow> length (rails s') = length (rails s)"
  unfolding frame_def by (metis length_map)

lemma frame_static:
  assumes "frame G s s'" "i < length (rails s)"
  shows "rail_static (rails s' ! i) = rail_static (rails s ! i)"
proof -
  have "map rail_static (rails s') ! i = map rail_static (rails s) ! i"
    using assms by (simp add: frame_def)
  then show ?thesis using assms frame_length[OF assms(1)] by simp
qed

lemma static_fields:
  assumes "rail_static a = rail_static b"
  shows "resolving_to a = resolving_to b" "disabled a = disabled b" "suspended a = suspended b"
    "reg a = reg b" "dfll_mode a = dfll_mode b" "step a = step b" "step_up a = step_up b"
    "jmp_to_zero a = jmp_to_zero b" "in_band_pm a = in_band_pm b"
    "max_millivolts a = max_millivolts b" "min_millivolts a = min_millivolts b"
    "nominal_millivolts a = nominal_millivolts b" "suspend_millivolts a = suspend_millivolts b"
    "disable_millivolts a = disable_millivolts b" "override_millivolts a = override_millivolts b"
    "therm_floors a = therm_floors b" "therm_floors_size a = therm_floors_size b"
    "therm_floor_idx a = therm_floor_idx b" "therm_caps a = therm_caps b"
    "therm_cap_idx a = therm_cap_idx b"
proof -
  show "resolving_to a = resolving_to b"
    using arg_cong[OF assms, of resolving_to] by (simp add: rail_static_def)
  show "disabled a = disabled b"
    using arg_cong[OF assms, of disabled] by (simp add: rail_static_def)
  show "suspended a = suspended b"
    using arg_cong[OF assms, of suspended] by (simp add: rail_static_def)
  show "reg a = reg b"
    using arg_cong[OF assms, of reg] by (simp add: rail_static_def)
  show "dfll_mode a = dfll_mode b"
    using arg_cong[OF assms, of dfll_mode] by (simp add: rail_static_def)
  show "step a = step b"
    using arg_cong[OF assms, of step] by (simp add: rail_static_def)
  show "step_up a = step_up b"
    using arg_cong[OF assms, of step_up] by (simp add: rail_static_def)
  show "jmp_to_zero a = jmp_to_zero b"
    using arg_cong[OF assms, of jmp_to_zero] by (simp add: rail_static_def)
  show "in_band_pm a = in_band_pm b"
    using arg_cong[OF assms, of in_band_pm] by (simp add: rail_static_def)
  show "max_millivolts a = max_millivolts b"
    using arg_cong[OF assms, of max_millivolts] by (simp add: rail_static_def)
  show "min_millivolts a = min_millivolts b"
    using arg_cong[OF assms, of min_millivolts] by (simp add: rail_static_def)
  show "nominal_millivolts a = nominal_millivolts b"
    using arg_cong[OF assms, of nominal_millivolts] by (simp add: rail_static_def)
  show "suspend_millivolts a = suspend_millivolts b"
    using arg_cong[OF assms, of suspend_millivolts] by (simp add: rail_static_def)
  show "disable_millivolts a = disable_millivolts b"
    using arg_cong[OF assms, of disable_millivolts] by (simp add: rail_static_def)
  show "override_millivolts a = override_millivolts b"
    using arg_cong[OF assms, of override_millivolts] by (simp add: rail_static_def)
  show "therm_floors a = therm_floors b"
    using arg_cong[OF assms, of therm_floors] by (simp add: rail_static_def)
  show "therm_floors_size a = therm_floors_size b"
    using arg_cong[OF assms, of therm_floors_size] by (simp add: rail_static_def)
  show "therm_floor_idx a = therm_floor_idx b"
    using arg_cong[OF assms, of therm_floor_idx] by (simp add: rail_static_def)
  show "therm_caps a = therm_caps b"
    using arg_cong[OF assms, of therm_caps] by (simp add: rail_static_def)
  show "therm_cap_idx a = therm_cap_idx b"
    using arg_cong[OF assms, of therm_cap_idx] by (simp add: rail_static_def)
qed

lemma frame_resolving_to:
  "frame G s s' \<Longrightarrow> i < length (rails s) \<Longrightarrow>
   resolving_to (rails s' ! i) = resolving_to (rails s ! i)"
  by (rule static_fields(1)) (rule frame_static)





lemma map_static_update:
  assumes "rail_static v = rail_static (xs ! i)"
  shows "map rail_static (xs[i := v]) = map rail_static xs"
proof (cases "i < length xs")
  case True
  have "map rail_static (xs[i := v]) = (map rail_static xs)[i := rail_static (xs ! i)]"
    by (simp add: map_update assms)
  also have "\<dots> = map rail_static xs"
    using True by (metis length_map list_update_id nth_map)
  finally show ?thesis .
next
  case False
  then show ?thesis by (simp add: list_update_beyond)
qed

lemma frame_own_rails:
  assumes "rels s' = rels s" "clocks s' = clocks s" "reg_calls s' = reg_calls s"
    and "rails s' = (rails s)[r := v]" "rail_static v = rail_static (rails s ! r)" "r \<notin> G"
  shows "frame G s s'"
proof -
  have "map rail_static (rails s') = map rail_static (rails s)"
    using assms(4,5) by (simp add: map_static_update)
  moreover have "\<forall>i\<in>G. rails s' ! i = rails s ! i"
    using assms(4,6) by (metis nth_list_update_neq)
  moreover have "\<exists>calls. reg_calls s' = reg_calls s @ calls \<and> (\<forall>c\<in>set calls. fst c \<notin> G)"
    using assms(3) by (intro exI[of _ "[]"]) simp
  ultimately show ?thesis using assms(1,2) unfolding frame_def by simp
qed

lemma static_new_millivolts [simp]: "rail_static (r\<lparr>new_millivolts := v\<rparr>) = rail_static r"
  by (simp add: rail_static_def)

lemma static_millivolts [simp]: "rail_static (r\<lparr>millivolts := v\<rparr>) = rail_static r"
  by (simp add: rail_static_def)

lemma static_stats [simp]: "rail_static (r\<lparr>stats := v\<rparr>) = rail_static r"
  by (simp add: rail_static_def)

lemma static_stats_update [simp]: "rail_static (dvfs_rail_stats_update env r mv now) = rail_static r"
  by (subst stats_update_eq) (rule static_stats)

lemma frame_set_rail:
  "r \<notin> G \<Longrightarrow> rail_static (f (rails s ! r)) = rail_static (rails s ! r) \<Longrightarrow>
   frame G s (set_rail r f s)"
  by (rule frame_own_rails[where r = r and v = "f (rails s ! r)"]) simp_all

lemma frame_set_new: "r \<notin> G \<Longrightarrow> frame G s (set_rail r (\<lambda>x. x\<lparr>new_millivolts := v\<rparr>) s)"
  by (rule frame_set_rail) simp_all

lemma frame_set_cur: "r \<notin> G \<Longrightarrow> frame G s (set_rail r (\<lambda>x. x\<lparr>millivolts := new_millivolts x\<rparr>) s)"
  by (rule frame_set_rail) simp_all


lemma frame_stats_now: "r \<notin> G \<Longrightarrow> frame G s (stats_update_now env r mv s)"
  by (rule frame_own_rails[where r = r and
        v = "dvfs_rail_stats_update env (rails s ! r) mv (ktime_get env (ktime_reads s))"]) simp_all

lemma frame_reg_write: "r \<notin> G \<Longrightarrow> frame G s (snd (dvfs_rail_set_voltage_reg env r mv s))"
  unfolding frame_def by simp









lemma static_resolving_update:
  "rail_static (x\<lparr>resolving_to := b\<rparr>) = (rail_static x)\<lparr>resolving_to := b\<rparr>"
  by (simp add: rail_static_def)

lemma resolving_to_same: "resolving_to r = b \<Longrightarrow> r\<lparr>resolving_to := b\<rparr> = r"
  by (cases r) simp

lemma guard_bracket:
  assumes f: "frame G (set_rail rail (\<lambda>r. r\<lparr>resolving_to := True\<rparr>) s) s2"
    and ng: "\<not> resolving_to (rails s ! rail)" and nG: "rail \<notin> G"
  shows "frame G s (set_rail rail (\<lambda>r. r\<lparr>resolving_to := False\<rparr>) s2)"
proof -
  let ?s1 = "set_rail rail (\<lambda>r. r\<lparr>resolving_to := True\<rparr>) s"
  let ?s' = "set_rail rail (\<lambda>r. r\<lparr>resolving_to := False\<rparr>) s2"
  have len: "length (rails s2) = length (rails s)"
    using frame_length[OF f] by simp
  have "map rail_static (rails ?s') = map rail_static (rails s)"
  proof (rule nth_equalityI)
    show "length (map rail_static (rails ?s')) = length (map rail_static (rails s))"
      using len by simp
  next
    fix i assume "i < length (map rail_static (rails ?s'))"
    then have i: "i < length (rails s)" using len by simp
    have st: "rail_static (rails s2 ! i) = rail_static (rails ?s1 ! i)"
      by (rule frame_static[OF f]) (use i in simp)
    show "map rail_static (rails ?s') ! i = map rail_static (rails s) ! i"
    proof (cases "i = rail")
      case True
      have "rail_static ((rails s2 ! rail)\<lparr>resolving_to := False\<rparr>) =
            (rail_static ((rails s ! rail)\<lparr>resolving_to := True\<rparr>))\<lparr>resolving_to := False\<rparr>"
        using st i True by (simp add: static_resolving_update)
      also have "\<dots> = rail_static ((rails s ! rail)\<lparr>resolving_to := False\<rparr>)"
        by (simp add: static_resolving_update)
      also have "\<dots> = rail_static (rails s ! rail)"
        using ng by (simp add: resolving_to_same)
      finally show ?thesis using i len True by simp
    next
      case False
      then show ?thesis using st i len by simp
    qed
  qed
  moreover have "\<forall>i\<in>G. rails ?s' ! i = rails s ! i"
  proof
    fix i assume "i \<in> G"
    then have "i \<noteq> rail" using nG by blast
    moreover have "rails s2 ! i = rails ?s1 ! i" using f \<open>i \<in> G\<close> by (simp add: frame_def)
    ultimately show "rails ?s' ! i = rails s ! i" by simp
  qed
  moreover have "rels ?s' = rels s" "clocks ?s' = clocks s"
    using f by (simp_all add: frame_def)
  moreover have "\<exists>calls. reg_calls ?s' = reg_calls s @ calls \<and> (\<forall>c\<in>set calls. fst c \<notin> G)"
    using f by (simp add: frame_def)
  ultimately show ?thesis unfolding frame_def by simp
qed

section \<open>Every resolve returns\<close>





section \<open>Arithmetic of the step count\<close>






section \<open>Ramps without dependent rails\<close>

lemma set_voltage_with_stepped:
  assumes "reg (rails s ! rail)" "\<not> dfll_mode (rails s ! rail)" "\<not> disabled (rails s ! rail)"
  shows "set_voltage_with U env rail mv s =
     (case set_voltage_steps U env rail mv
             (if mv > millivolts (rails s ! rail) then step_up (rails s ! rail) else step (rails s ! rail))
             (if mv > millivolts (rails s ! rail)
              then (if mv > millivolts (rails s ! rail) then step_up (rails s ! rail) else step (rails s ! rail))
              else - (if mv > millivolts (rails s ! rail) then step_up (rails s ! rail) else step (rails s ! rail)))
             (jmp_to_zero (rails s ! rail) \<and> (mv = 0 \<or> millivolts (rails s ! rail) = 0))
             (nat (if (jmp_to_zero (rails s ! rail) \<and> (mv = 0 \<or> millivolts (rails s ! rail) = 0)) \<or>
                      (in_band_pm (rails s ! rail) \<and> off (stats (rails s ! rail))) then 1
                   else DIV_ROUND_UP \<bar>mv - millivolts (rails s ! rail)\<bar>
                          (if mv > millivolts (rails s ! rail) then step_up (rails s ! rail)
                           else step (rails s ! rail))))
             (set_rail rail (\<lambda>r. r\<lparr>resolving_to := True\<rparr>) s) of
        None \<Rightarrow> None
      | Some (ret, s2) \<Rightarrow>
          Some (if ret = 0 \<and> millivolts (rails s2 ! rail) \<noteq> mv then - EINVAL else ret,
                set_rail rail (\<lambda>r. r\<lparr>resolving_to := False\<rparr>) s2))"
  unfolding set_voltage_with_def Let_def
  by (simp only: assms if_True if_False simp_thms)

text \<open>One iteration for a rail that no rail depends on.\<close>

lemma step_no_edges:
  assumes none: "relationships_to s rail = []" and rail: "rail < length (rails s)"
    and new: "new = (if \<not> jmp \<and> \<bar>mv - millivolts (rails s ! rail)\<bar> > stp
                    then millivolts (rails s ! rail) + offset else mv)"
    and ans: "ans = regulator_set_voltage env (reg_calls s)
                      (rail, new * 1000, max_millivolts (rails s ! rail) * 1000)"
  shows "\<exists>s'. set_voltage_step U env rail mv stp offset jmp s = Some (ans, s') \<and>
           frame {} s s' \<and>
           reg_calls s' = reg_calls s @ [(rail, new * 1000, max_millivolts (rails s ! rail) * 1000)] \<and>
           millivolts (rails s' ! rail) = (if ans = 0 then new else millivolts (rails s ! rail))"
proof -
  define s1 where "s1 = set_rail rail (\<lambda>r. r\<lparr>new_millivolts := new\<rparr>) s"
  define s3 where "s3 = snd (dvfs_rail_set_voltage_reg env rail new s1)"
  define s4 where "s4 = set_rail rail (\<lambda>r. r\<lparr>millivolts := new_millivolts r\<rparr>) s3"
  define s5 where "s5 = stats_update_now env rail (millivolts (rails s4 ! rail)) s4"
  have f1: "frame {} s s1" unfolding s1_def by (rule frame_set_new) simp
  have f3: "frame {} s1 s3" unfolding s3_def by (rule frame_reg_write) simp
  have f4: "frame {} s3 s4" unfolding s4_def by (rule frame_set_cur) simp
  have f5: "frame {} s4 s5" unfolding s5_def by (rule frame_stats_now) simp
  have n1: "new_millivolts (rails s1 ! rail) = new" using rail by (simp add: s1_def)
  have r1: "relationships_to s1 rail = []" using none by (simp add: relationships_to_def s1_def)
  have r5: "relationships_to s5 rail = []"
    using none by (simp add: relationships_to_def s5_def s4_def s3_def s1_def)
  have pair: "dvfs_rail_set_voltage_reg env rail new s1 = (ans, s3)"
    using rail by (simp add: prod_eq_iff s3_def ans s1_def)
  have eq: "set_voltage_step U env rail mv stp offset jmp s =
        (if ans \<noteq> 0 then Some (ans, s3) else Some (0, s5))"
    unfolding set_voltage_step_def Let_def new[symmetric] s1_def[symmetric]
    by (simp add: r1 n1 pair s4_def[symmetric] s5_def[symmetric] r5)
  have c3: "reg_calls s3 = reg_calls s @ [(rail, new * 1000, max_millivolts (rails s ! rail) * 1000)]"
    using rail by (simp add: s3_def s1_def)
  have m3: "millivolts (rails s3 ! rail) = millivolts (rails s ! rail)"
    using rail by (simp add: s3_def s1_def)
  have c5: "reg_calls s5 = reg_calls s3" by (simp add: s5_def s4_def)
  have m5: "millivolts (rails s5 ! rail) = new"
    using rail by (simp add: s5_def s4_def s3_def s1_def)
       (subst stats_update_eq, simp)
  show ?thesis
  proof (cases "ans = 0")
    case True
    have "frame {} s s5" by (blast intro: frame_trans f1 f3 f4 f5)
    then show ?thesis using eq True c3 c5 m5 by simp
  next
    case False
    have "frame {} s s3" by (blast intro: frame_trans f1 f3)
    then show ?thesis using eq False c3 m3 by simp
  qed
qed


lemma frame_rels: "frame G s s' \<Longrightarrow> rels s' = rels s"
  by (simp add: frame_def)

lemma frame_clocks: "frame G s s' \<Longrightarrow> clocks s' = clocks s"
  by (simp add: frame_def)

lemma DIV_ROUND_UP_one:
  assumes "0 < a" "a \<le> d"
  shows "DIV_ROUND_UP a d = 1"
proof -
  have e: "a + d - 1 = 1 * d + (a - 1)" by simp
  have "(a + d - 1) div d = 1 + (a - 1) div d"
    using assms unfolding e by (simp only: div_mult_self3) 
  moreover have "(a - 1) div d = 0" using assms by (simp add: div_pos_pos_trivial)
  ultimately have "(a + d - 1) div d = 1" by simp
  moreover have "(a + d - 1) sdiv d = (a + d - 1) div d"
    using assms by (simp add: signed_divide_int_def sgn_if)
  ultimately show ?thesis by (simp add: DIV_ROUND_UP_def)
qed

text \<open>A ramp of one step, for a rail that no rail depends on.\<close>

lemma ramp_single_step:
  assumes rail: "rail < length (rails s)"
    and flags: "reg (rails s ! rail)" "\<not> dfll_mode (rails s ! rail)" "\<not> disabled (rails s ! rail)"
      "\<not> resolving_to (rails s ! rail)"
    and none: "relationships_to s rail = []"
    and single: "(jmp_to_zero (rails s ! rail) \<and> (mv = 0 \<or> millivolts (rails s ! rail) = 0)) \<or>
       (mv \<noteq> millivolts (rails s ! rail) \<and>
        \<bar>mv - millivolts (rails s ! rail)\<bar> \<le>
          (if mv > millivolts (rails s ! rail) then step_up (rails s ! rail) else step (rails s ! rail)))"
    and ok: "regulator_set_voltage env (reg_calls s)
               (rail, mv * 1000, max_millivolts (rails s ! rail) * 1000) = 0"
  shows "\<exists>s'. dvfs_rail_set_voltage fuel env rail mv s = Some (0, s') \<and> frame {} s s' \<and>
           reg_calls s' = reg_calls s @ [(rail, mv * 1000, max_millivolts (rails s ! rail) * 1000)] \<and>
           millivolts (rails s' ! rail) = mv"
proof -
  let ?r = "rails s ! rail"
  define stp where "stp = (if mv > millivolts ?r then step_up ?r else step ?r)"
  define offset where "offset = (if mv > millivolts ?r then stp else - stp)"
  define jmp where "jmp = (jmp_to_zero ?r \<and> (mv = 0 \<or> millivolts ?r = 0))"
  define s1 where "s1 = set_rail rail (\<lambda>r. r\<lparr>resolving_to := True\<rparr>) s"
  have steps: "nat (if jmp \<or> (in_band_pm ?r \<and> off (stats ?r)) then 1
                    else DIV_ROUND_UP \<bar>mv - millivolts ?r\<bar> stp) = Suc 0"
  proof (cases "jmp \<or> (in_band_pm ?r \<and> off (stats ?r))")
    case True
    then show ?thesis by simp
  next
    case False
    then have "mv \<noteq> millivolts ?r" "\<bar>mv - millivolts ?r\<bar> \<le> stp"
      using single by (auto simp add: jmp_def stp_def)
    then have "DIV_ROUND_UP \<bar>mv - millivolts ?r\<bar> stp = 1"
      by (intro DIV_ROUND_UP_one) simp_all
    then show ?thesis using False by simp
  qed
  have new: "mv = (if \<not> jmp \<and> \<bar>mv - millivolts (rails s1 ! rail)\<bar> > stp
                    then millivolts (rails s1 ! rail) + offset else mv)"
    using single rail by (auto simp add: jmp_def stp_def s1_def)
  have ans: "0 = regulator_set_voltage env (reg_calls s1)
                      (rail, mv * 1000, max_millivolts (rails s1 ! rail) * 1000)"
    using ok rail by (simp add: s1_def)
  have none1: "relationships_to s1 rail = []"
    using none by (simp add: relationships_to_def s1_def)
  have rail1: "rail < length (rails s1)" using rail by (simp add: s1_def)
  from step_no_edges[OF none1 rail1 new ans, where U = "dvfs_rail_update fuel env"]
  obtain s2 where 2:
    "set_voltage_step (dvfs_rail_update fuel env) env rail mv stp offset jmp s1 = Some (0, s2)"
    "frame {} s1 s2"
    "reg_calls s2 = reg_calls s1 @ [(rail, mv * 1000, max_millivolts (rails s1 ! rail) * 1000)]"
    "millivolts (rails s2 ! rail) = mv"
    by auto
  let ?s' = "set_rail rail (\<lambda>r. r\<lparr>resolving_to := False\<rparr>) s2"
  have len2: "length (rails s2) = length (rails s)"
    using frame_length[OF 2(2)] by (simp add: s1_def)
  have "dvfs_rail_set_voltage fuel env rail mv s = Some (0, ?s')"
    unfolding dvfs_rail_set_voltage_def set_voltage_with_stepped[OF flags(1-3)]
      stp_def[symmetric] offset_def[symmetric] jmp_def[symmetric] s1_def[symmetric] steps
    using 2(1,4) by simp
  moreover have "frame {} s ?s'"
    using 2(2) flags(4) unfolding s1_def by (rule guard_bracket) simp
  moreover have "reg_calls ?s' = reg_calls s @ [(rail, mv * 1000, max_millivolts ?r * 1000)]"
    using 2(3) rail by (simp add: s1_def)
  moreover have "millivolts (rails ?s' ! rail) = mv"
    using 2(4) rail len2 by simp
  ultimately show ?thesis by blast
qed

section \<open>Resolves without relationships\<close>

lemma frame_field:
  assumes "frame G s s'" "i < length (rails s)"
  shows "reg (rails s' ! i) = reg (rails s ! i)"
    "disabled (rails s' ! i) = disabled (rails s ! i)"
    "suspended (rails s' ! i) = suspended (rails s ! i)"
    "dfll_mode (rails s' ! i) = dfll_mode (rails s ! i)"
    "max_millivolts (rails s' ! i) = max_millivolts (rails s ! i)"
    "step (rails s' ! i) = step (rails s ! i)"
    "step_up (rails s' ! i) = step_up (rails s ! i)"
    "jmp_to_zero (rails s' ! i) = jmp_to_zero (rails s ! i)"
  using static_fields[OF frame_static[OF assms]] by simp_all

text \<open>The retry loop once the rail is at the demand, for a rail that depends on no rail.\<close>

lemma update_retry_reached:
  assumes "millivolts (rails s ! rail) = mv" "relationships_from s rail = []"
    "rail < length (rails s)"
  shows "\<exists>s' k. update_retry V rail mv steps ret s iters = Some ((ret, s'), k) \<and>
           frame {} s s' \<and> reg_calls s' = reg_calls s \<and> millivolts (rails s' ! rail) = mv"
proof (cases "steps < 0")
  case True
  then show ?thesis using assms by (subst update_retry.simps) simp
next
  case False
  let ?s1 = "set_rail rail (\<lambda>r. r\<lparr>new_millivolts := mv\<rparr>) s"
  have "relationships_from ?s1 rail = []" using assms(2) by (simp add: relationships_from_def)
  moreover have "frame {} s ?s1" by (rule frame_set_new) simp
  ultimately show ?thesis using False assms
    by (subst update_retry.simps) (simp add: Let_def)
qed

lemma update_retry_single:
  assumes rail: "rail < length (rails s)" and nofrom: "relationships_from s rail = []"
    and neq: "mv \<noteq> millivolts (rails s ! rail)" and steps: "0 \<le> steps"
    and V: "\<And>x. frame {} s x \<Longrightarrow> reg_calls x = reg_calls s \<Longrightarrow>
              millivolts (rails x ! rail) = millivolts (rails s ! rail) \<Longrightarrow>
              \<exists>x'. V rail mv x = Some (ret', x') \<and> frame {} s x' \<and> reg_calls x' = reg_calls s @ calls \<and>
                    millivolts (rails x' ! rail) = mv"
  shows "\<exists>s' k. update_retry V rail mv steps ret s iters = Some ((ret', s'), k) \<and>
           frame {} s s' \<and> reg_calls s' = reg_calls s @ calls \<and> millivolts (rails s' ! rail) = mv"
proof -
  define s1 where "s1 = set_rail rail (\<lambda>r. r\<lparr>new_millivolts := mv\<rparr>) s"
  have f1: "frame {} s s1" unfolding s1_def by (rule frame_set_new) simp
  have from1: "relationships_from s1 rail = []" using nofrom by (simp add: relationships_from_def s1_def)
  have n1: "new_millivolts (rails s1 ! rail) = mv" "millivolts (rails s1 ! rail) = millivolts (rails s ! rail)"
    using rail by (simp_all add: s1_def)
  have "reg_calls s1 = reg_calls s" by (simp add: s1_def)
  from V[OF f1 this n1(2)] obtain s3 where
    3: "V rail mv s1 = Some (ret', s3)" "frame {} s s3" "reg_calls s3 = reg_calls s @ calls"
       "millivolts (rails s3 ! rail) = mv" by blast
  have from3: "relationships_from s3 rail = []"
    using nofrom frame_rels[OF 3(2)] by (simp add: relationships_from_def)
  have rail3: "rail < length (rails s3)" using frame_length[OF 3(2)] rail by simp
  from update_retry_reached[OF 3(4) from3 rail3, of V "steps - 1" ret' "Suc iters"]
  obtain s' k where 4: "update_retry V rail mv (steps - 1) ret' s3 (Suc iters) = Some ((ret', s'), k)"
    "frame {} s3 s'" "reg_calls s' = reg_calls s3" "millivolts (rails s' ! rail) = mv" by blast
  have "update_retry V rail mv steps ret s iters = Some ((ret', s'), k)"
    using steps neq 3(1) 4(1) n1
    by (subst update_retry.simps) (simp add: Let_def s1_def[symmetric] from1)
  moreover have "frame {} s s'" using 3(2) 4(2) by (rule frame_trans)
  ultimately show ?thesis using 4(3,4) 3(3) by simp
qed


lemma DIV_ROUND_UP_nonneg: "0 \<le> a \<Longrightarrow> 0 < d \<Longrightarrow> 0 \<le> DIV_ROUND_UP a d"
  by (simp add: DIV_ROUND_UP_def signed_divide_int_def sgn_if pos_imp_zdiv_nonneg_iff)

text \<open>A resolve with the demand \<open>T\<close>, for a rail without relationships that is at most one
  step away from \<open>T\<close>.\<close>

lemma update_resolve_edge_free:
  assumes rail: "rail < length (rails s)"
    and flags: "reg (rails s ! rail)" "\<not> dfll_mode (rails s ! rail)" "\<not> disabled (rails s ! rail)"
      "\<not> resolving_to (rails s ! rail)"
    and nofrom: "relationships_from s rail = []" and noto: "relationships_to s rail = []"
    and steppos: "0 < step (rails s ! rail)"
    and single: "T = millivolts (rails s ! rail) \<or>
       (jmp_to_zero (rails s ! rail) \<and> (T = 0 \<or> millivolts (rails s ! rail) = 0)) \<or>
       \<bar>T - millivolts (rails s ! rail)\<bar> \<le>
          (if T > millivolts (rails s ! rail) then step_up (rails s ! rail) else step (rails s ! rail))"
    and ok: "regulator_set_voltage env (reg_calls s)
               (rail, T * 1000, max_millivolts (rails s ! rail) * 1000) = 0"
  shows "\<exists>s'. update_resolve (dvfs_rail_set_voltage fuel env) rail T s = Some (0, s') \<and>
           frame {} s s' \<and> millivolts (rails s' ! rail) = T \<and>
           reg_calls s' = reg_calls s @
             (if T = millivolts (rails s ! rail) then []
              else [(rail, T * 1000, max_millivolts (rails s ! rail) * 1000)])"
proof (cases "T = millivolts (rails s ! rail)")
  case True
  from update_retry_reached[OF True[symmetric] nofrom rail,
      of "dvfs_rail_set_voltage fuel env"
         "DIV_ROUND_UP \<bar>T - millivolts (rails s ! rail)\<bar> (step (rails s ! rail))" 0 0]
  obtain s' k where
    "update_retry (dvfs_rail_set_voltage fuel env) rail T
       (DIV_ROUND_UP \<bar>T - millivolts (rails s ! rail)\<bar> (step (rails s ! rail))) 0 s 0 = Some ((0, s'), k)"
    "frame {} s s'" "reg_calls s' = reg_calls s" "millivolts (rails s' ! rail) = T"
    by blast
  then have "update_resolve (dvfs_rail_set_voltage fuel env) rail T s = Some (0, s') \<and>
           frame {} s s' \<and> millivolts (rails s' ! rail) = T \<and>
           reg_calls s' = reg_calls s @
             (if T = millivolts (rails s ! rail) then []
              else [(rail, T * 1000, max_millivolts (rails s ! rail) * 1000)])"
    using True by (simp add: update_resolve_def Let_def)
  then show ?thesis by blast
next
  case False
  let ?r = "rails s ! rail"
  let ?steps = "DIV_ROUND_UP \<bar>T - millivolts ?r\<bar> (step ?r)"
  have steps: "0 \<le> ?steps" using steppos by (intro DIV_ROUND_UP_nonneg) simp_all
  have "\<exists>s' k. update_retry (dvfs_rail_set_voltage fuel env) rail T ?steps 0 s 0 = Some ((0, s'), k) \<and>
           frame {} s s' \<and>
           reg_calls s' = reg_calls s @ [(rail, T * 1000, max_millivolts ?r * 1000)] \<and>
           millivolts (rails s' ! rail) = T"
  proof (rule update_retry_single[OF rail nofrom False steps])
    fix x
    assume fx: "frame {} s x" and cx: "reg_calls x = reg_calls s"
      and mx: "millivolts (rails x ! rail) = millivolts ?r"
    note fld = frame_field[OF fx rail] frame_resolving_to[OF fx rail]
    have "\<exists>x'. dvfs_rail_set_voltage fuel env rail T x = Some (0, x') \<and> frame {} x x' \<and>
           reg_calls x' = reg_calls x @ [(rail, T * 1000, max_millivolts (rails x ! rail) * 1000)] \<and>
           millivolts (rails x' ! rail) = T"
    proof (rule ramp_single_step)
      show "rail < length (rails x)" using frame_length[OF fx] rail by simp
      show "relationships_to x rail = []"
        using noto frame_rels[OF fx] by (simp add: relationships_to_def)
      show "(jmp_to_zero (rails x ! rail) \<and> (T = 0 \<or> millivolts (rails x ! rail) = 0)) \<or>
         (T \<noteq> millivolts (rails x ! rail) \<and>
          \<bar>T - millivolts (rails x ! rail)\<bar> \<le>
            (if T > millivolts (rails x ! rail) then step_up (rails x ! rail) else step (rails x ! rail)))"
        using single False by (auto simp add: fld mx)
      show "regulator_set_voltage env (reg_calls x)
               (rail, T * 1000, max_millivolts (rails x ! rail) * 1000) = 0"
        using ok by (simp add: fld cx)
    qed (simp_all add: fld flags)
    then show "\<exists>x'. dvfs_rail_set_voltage fuel env rail T x = Some (0, x') \<and> frame {} s x' \<and>
           reg_calls x' = reg_calls s @ [(rail, T * 1000, max_millivolts ?r * 1000)] \<and>
           millivolts (rails x' ! rail) = T"
      using fx by (auto simp add: fld cx intro: frame_trans)
  qed
  then obtain s' k where
    "update_retry (dvfs_rail_set_voltage fuel env) rail T ?steps 0 s 0 = Some ((0, s'), k)"
    "frame {} s s'" "reg_calls s' = reg_calls s @ [(rail, T * 1000, max_millivolts ?r * 1000)]"
    "millivolts (rails s' ! rail) = T"
    by blast
  then have "update_resolve (dvfs_rail_set_voltage fuel env) rail T s = Some (0, s') \<and>
           frame {} s s' \<and> millivolts (rails s' ! rail) = T \<and>
           reg_calls s' = reg_calls s @
             (if T = millivolts (rails s ! rail) then []
              else [(rail, T * 1000, max_millivolts (rails s ! rail) * 1000)])"
    using False by (simp add: update_resolve_def Let_def)
  then show ?thesis by blast
qed

section \<open>Unfolding a resolve\<close>

lemma set_voltage_with_update:
  "set_voltage_with (dvfs_rail_update fuel env) env = dvfs_rail_set_voltage fuel env"
  by (rule ext)+ (simp add: dvfs_rail_set_voltage_def)


lemma apply_limits_unclamped:
  "dvfs_rail_apply_limits rail mv =
     (if override_millivolts rail \<noteq> 0 then override_millivolts rail else mv)"
  by (simp add: dvfs_rail_apply_limits_def Let_def)

lemma update_with_demand:
  assumes "\<not> disabled (rails s ! rail)" "\<not> suspended (rails s ! rail)" "reg (rails s ! rail)"
    "\<not> resolving_to (rails s ! rail)" "max_cur_millivolts s rail \<noteq> 0"
  shows "update_with V rail s =
     update_resolve V rail (dvfs_rail_apply_limits (rails s ! rail) (max_cur_millivolts s rail)) s"
  using assms by (simp add: update_with_def Let_def)

section \<open>Accepted steps\<close>


section \<open>Clocks\<close>

lemma set_clock_simps [simp]:
  "clocks (set_clock d f s) = (clocks s)[d := f (clocks s ! d)]"
  "rails (set_clock d f s) = rails s"
  "rels (set_clock d f s) = rels s"
  "reg_calls (set_clock d f s) = reg_calls s"
  by (simp_all add: set_clock_def)

lemma clocked_state_simps:
  "rails clocked_state = [example_rail]"
  "clocks clocked_state = [example_clock\<lparr>alt_freqs := Some [150, 250, 350], use_dfll_rate_min := 200\<rparr>]"
  "rels clocked_state = []" "reg_calls clocked_state = []"
  by (simp_all add: clocked_state_def)

section \<open>The regulator calls of a ramp\<close>












section \<open>Suspend and resume\<close>










lemma EINVAL_nonzero [simp]: "- EINVAL \<noteq> 0" "EINVAL \<noteq> 0"
  unfolding EINVAL_def by simp_all























section \<open>The bound of the retry loop\<close>





section \<open>The claims\<close>



text \<open>
  C1. The claim: for a rail with no incoming relationships and no thermal tables, a
  resolve with a nonzero demand ramps to \<open>clamp (max of the demands) min max\<close>. The code
  computes the limits in \<^verbatim>\<open>dvfs_rail_apply_limits\<close> and drops the value of \<^verbatim>\<open>clamp_val\<close>.
  At a rail at 700 mV with the minimum 700 mV whose only clock demands 650 mV, the
  resolve writes 650 mV to the regulator and leaves the rail there, where the clamped
  demand is 700 mV.
\<close>

theorem resolve_ignores_rail_minimum:
  "\<exists>s'. dvfs_rail_update 1 example_env 0 low_demand_state = Some (0, s') \<and>
        millivolts (rails s' ! 0) = 650 \<and> reg_calls s' = [(0, 650000, 1200000)] \<and>
        clamp_val (max_cur_millivolts low_demand_state 0)
          (min_millivolts (rails low_demand_state ! 0))
          (max_millivolts (rails low_demand_state ! 0)) = 700"
proof -
  have d: "max_cur_millivolts low_demand_state 0 = 650"
    by (simp add: max_cur_millivolts_def rail_dvfs_def low_demand_state_def example_clock_def)
  have r: "rails low_demand_state ! 0 = example_rail\<lparr>millivolts := 700, new_millivolts := 700\<rparr>"
    by (simp add: low_demand_state_def)
  have u: "dvfs_rail_update 1 example_env 0 low_demand_state =
      update_resolve (dvfs_rail_set_voltage 0 example_env) 0 650 low_demand_state"
    using update_with_demand[of low_demand_state 0 "dvfs_rail_set_voltage 0 example_env"]
    by (simp add: d r example_rail_def apply_limits_unclamped set_voltage_with_update)
  have "\<exists>s'. update_resolve (dvfs_rail_set_voltage 0 example_env) 0 650 low_demand_state = Some (0, s') \<and>
           frame {} low_demand_state s' \<and> millivolts (rails s' ! 0) = 650 \<and>
           reg_calls s' = reg_calls low_demand_state @
             (if 650 = millivolts (rails low_demand_state ! 0) then []
              else [(0, 650 * 1000, max_millivolts (rails low_demand_state ! 0) * 1000)])"
    by (rule update_resolve_edge_free)
       (simp_all add: r example_rail_def example_env_def relationships_from_def relationships_to_def,
        simp_all add: low_demand_state_def)
  then obtain s' where
    "update_resolve (dvfs_rail_set_voltage 0 example_env) 0 650 low_demand_state = Some (0, s')"
    "millivolts (rails s' ! 0) = 650" "reg_calls s' = [(0, 650000, 1200000)]"
    by (auto simp add: r example_rail_def) (simp add: low_demand_state_def)
  then show ?thesis
    unfolding u d by (simp add: r example_rail_def clamp_val_def)
qed

text \<open>
  C2. The claim: with the thermal floor index at an entry of 950 mV and a clock demand of
  850 mV, the next resolve ramps to 950 mV. The code never applies the floor (the same
  dropped \<^verbatim>\<open>clamp_val\<close>). The table of the example is one that
  \<^verbatim>\<open>tegra_dvfs_init_therm_limits\<close> keeps: the floors 950 and 900 mV, descending, the last
  above the rail minimum of 700 mV and the first below the nominal 1000 mV, with the
  index 0 on the entry of 950 mV. The rail is at 900 mV and its clock has just lowered
  its demand to 850 mV: the resolve writes 850 mV to the regulator and leaves the rail
  there, 100 mV under the floor.
\<close>

theorem resolve_ignores_thermal_floor:
  "\<exists>s'. dvfs_rail_update 1 example_env 0 raised_floor_state = Some (0, s') \<and>
        millivolts (rails s' ! 0) = 850 \<and> reg_calls s' = [(0, 850000, 1200000)] \<and>
        therm_floors (rails raised_floor_state ! 0) = Some [950, 900] \<and>
        therm_floors_size (rails raised_floor_state ! 0) = 2 \<and>
        therm_floor_idx (rails raised_floor_state ! 0) = 0 \<and>
        min_millivolts (rails raised_floor_state ! 0) = 700 \<and>
        nominal_millivolts (rails raised_floor_state ! 0) = 1000 \<and>
        max_cur_millivolts raised_floor_state 0 = 850 \<and>
        clamp_val 850 950 (max_millivolts (rails raised_floor_state ! 0)) = 950"
proof -
  have d: "max_cur_millivolts raised_floor_state 0 = 850"
    by (simp add: max_cur_millivolts_def rail_dvfs_def raised_floor_state_def example_clock_def)
  have r: "rails raised_floor_state ! 0 =
      example_rail\<lparr>millivolts := 900, new_millivolts := 900,
                therm_floors := Some [950, 900], therm_floors_size := 2, therm_floor_idx := 0\<rparr>"
    by (simp add: raised_floor_state_def)
  have u: "dvfs_rail_update 1 example_env 0 raised_floor_state =
      update_resolve (dvfs_rail_set_voltage 0 example_env) 0 850 raised_floor_state"
    using update_with_demand[of raised_floor_state 0 "dvfs_rail_set_voltage 0 example_env"]
    by (simp add: d r example_rail_def apply_limits_unclamped set_voltage_with_update)
  have "\<exists>s'. update_resolve (dvfs_rail_set_voltage 0 example_env) 0 850 raised_floor_state = Some (0, s') \<and>
           frame {} raised_floor_state s' \<and> millivolts (rails s' ! 0) = 850 \<and>
           reg_calls s' = reg_calls raised_floor_state @
             (if 850 = millivolts (rails raised_floor_state ! 0) then []
              else [(0, 850 * 1000, max_millivolts (rails raised_floor_state ! 0) * 1000)])"
    by (rule update_resolve_edge_free)
       (simp_all add: r example_rail_def example_env_def relationships_from_def relationships_to_def,
        simp_all add: raised_floor_state_def)
  then obtain s' where
    "update_resolve (dvfs_rail_set_voltage 0 example_env) 0 850 raised_floor_state = Some (0, s')"
    "millivolts (rails s' ! 0) = 850" "reg_calls s' = [(0, 850000, 1200000)]"
    by (auto simp add: r example_rail_def) (simp add: raised_floor_state_def)
  then show ?thesis
    unfolding u d by (simp add: r example_rail_def clamp_val_def)
qed







text \<open>
  C9. The claim: for every clock with a voltage table and every rate above the maximum of
  the frequency table, \<^verbatim>\<open>__tegra_dvfs_set_rate\<close> fails and changes nothing. Before the
  comparison the code replaces the rate by \<^verbatim>\<open>use_dfll_rate_min\<close> when
  \<^verbatim>\<open>tegra_dvfs_is_dfll_range_entry\<close> holds. With a predicate that holds for a clock at
  rate 100 asked for a rate at or above its \<^verbatim>\<open>use_dfll_rate_min\<close> of 200, the request for
  400, above the table's maximum of 300, is served as a request for 200: it returns 0,
  stores the rate 200 and the demand 850 mV, and ramps the rail from 800 to 850 mV.
\<close>

theorem set_rate_above_maximum_accepted:
  "freqs (clocks clocked_state ! 0) = [100, 200, 300] \<and>
   cur_rate (clocks clocked_state ! 0) = 100 \<and>
   millivolts (rails clocked_state ! 0) = 800 \<and>
   (\<exists>s'. tegra_dvfs_set_rate_locked 1 range_entry_env 0 400 clocked_state = Some (0, s') \<and>
         cur_rate (clocks s' ! 0) = 200 \<and> cur_millivolts (clocks s' ! 0) = 850 \<and>
         millivolts (rails s' ! 0) = 850)"
proof -
  define s1 where
    "s1 = set_clock 0 (\<lambda>c. c\<lparr>cur_millivolts := 850, cur_rate := 200\<rparr>) clocked_state"
  have i: "rate_index [100, 200, 300] 3 200 0 = Suc 0"
    by (simp add: numeral_3_eq_3)
  have sr: "tegra_dvfs_set_rate_locked 1 range_entry_env 0 400 clocked_state =
      dvfs_rail_update 1 range_entry_env 0 s1"
    unfolding tegra_dvfs_set_rate_locked_def s1_def
    by (simp add: clocked_state_simps example_clock_def dvfs_get_freqs_def dvfs_get_millivolts_def
        range_entry_env_def example_env_def i Let_def)
  have r: "rails s1 ! 0 = example_rail" by (simp add: s1_def clocked_state_simps)
  have d: "max_cur_millivolts s1 0 = 850"
    by (simp add: max_cur_millivolts_def rail_dvfs_def s1_def clocked_state_simps example_clock_def)
  have u: "dvfs_rail_update 1 range_entry_env 0 s1 =
      update_resolve (dvfs_rail_set_voltage 0 range_entry_env) 0 850 s1"
    using update_with_demand[of s1 0 "dvfs_rail_set_voltage 0 range_entry_env"]
    by (simp add: d r example_rail_def apply_limits_unclamped set_voltage_with_update)
  have "\<exists>s'. update_resolve (dvfs_rail_set_voltage 0 range_entry_env) 0 850 s1 = Some (0, s') \<and>
           frame {} s1 s' \<and> millivolts (rails s' ! 0) = 850 \<and>
           reg_calls s' = reg_calls s1 @
             (if 850 = millivolts (rails s1 ! 0) then []
              else [(0, 850 * 1000, max_millivolts (rails s1 ! 0) * 1000)])"
    by (rule update_resolve_edge_free)
       (simp_all add: r example_rail_def range_entry_env_def example_env_def
          relationships_from_def relationships_to_def,
        simp_all add: s1_def clocked_state_simps)
  then obtain s' where 1:
    "update_resolve (dvfs_rail_set_voltage 0 range_entry_env) 0 850 s1 = Some (0, s')"
    "frame {} s1 s'" "millivolts (rails s' ! 0) = 850"
    by blast
  have "clocks s' = clocks s1" by (rule frame_clocks[OF 1(2)])
  then have c: "cur_rate (clocks s' ! 0) = 200" "cur_millivolts (clocks s' ! 0) = 850"
    by (simp_all add: s1_def clocked_state_simps)
  have "tegra_dvfs_set_rate_locked 1 range_entry_env 0 400 clocked_state = Some (0, s')"
    unfolding sr u by (rule 1(1))
  then have "\<exists>s'. tegra_dvfs_set_rate_locked 1 range_entry_env 0 400 clocked_state = Some (0, s') \<and>
         cur_rate (clocks s' ! 0) = 200 \<and> cur_millivolts (clocks s' ! 0) = 850 \<and>
         millivolts (rails s' ! 0) = 850"
    using c 1(3) by blast
  moreover have "freqs (clocks clocked_state ! 0) = [100, 200, 300]"
    "cur_rate (clocks clocked_state ! 0) = 100" "millivolts (rails clocked_state ! 0) = 800"
    by (simp_all add: clocked_state_simps example_clock_def example_rail_def)
  ultimately show ?thesis by (intro conjI)
qed

text \<open>
  C9, amended: for every clock with its tables and every rate that, after the DFLL
  range-entry replacement, is above the last of the \<^verbatim>\<open>num_freqs\<close> entries of the frequency
  table in use, \<^verbatim>\<open>__tegra_dvfs_set_rate\<close> returns \<^verbatim>\<open>-EINVAL\<close> and the state is the one it
  was called in: the clock's rate and demand and every rail are unchanged.
\<close>

theorem set_rate_too_high_rejected:
  assumes "dvfs_get_freqs (clocks s ! d) = Some fs" "dvfs_get_millivolts env s d rate = Some mvs"
    and "0 < num_freqs (clocks s ! d)" "num_freqs (clocks s ! d) \<le> length fs"
    and "(if tegra_dvfs_is_dfll_range_entry env s d rate then use_dfll_rate_min (clocks s ! d)
          else rate) > fs ! (num_freqs (clocks s ! d) - 1)"
  shows "tegra_dvfs_set_rate_locked fuel env d rate s = Some (- EINVAL, s)"
  using assms by (simp add: tegra_dvfs_set_rate_locked_def Let_def)

theorem set_rate_too_high_rejected_witness:
  "tegra_dvfs_set_rate_locked 1 example_env 0 400 clocked_state = Some (- EINVAL, clocked_state)"
proof -
  have c: "clocks clocked_state ! 0 =
      example_clock\<lparr>alt_freqs := Some [150, 250, 350], use_dfll_rate_min := 200\<rparr>"
    by (simp add: clocked_state_simps)
  have h: "dvfs_get_freqs (clocks clocked_state ! 0) = Some [100, 200, 300]"
    "dvfs_get_millivolts example_env clocked_state 0 400 = Some [650, 850, 1000]"
    "0 < num_freqs (clocks clocked_state ! 0)"
    "num_freqs (clocks clocked_state ! 0) \<le> length [100, 200, 300 :: nat]"
    "(if tegra_dvfs_is_dfll_range_entry example_env clocked_state 0 400
      then use_dfll_rate_min (clocks clocked_state ! 0) else 400)
       > [100, 200, 300] ! (num_freqs (clocks clocked_state ! 0) - 1)"
    by (simp_all add: c dvfs_get_freqs_def dvfs_get_millivolts_def example_clock_def example_env_def)
  show ?thesis by (rule set_rate_too_high_rejected[OF h])
qed

text \<open>
  C5. The claim: for a clock with an alternate frequency table, a request to swap tables
  applies the swap, derives the demand again and resolves the rail, and on failure
  restores the table and reports an error. The condition of the code is
  \<^verbatim>\<open>!d && d->alt_freqs\<close> where \<^verbatim>\<open>d && d->alt_freqs\<close> is meant: for a clock that is found the
  body never runs. The clock of the example has an alternate table and does not use it;
  the request returns \<^verbatim>\<open>-ENOENT\<close> and the state is unchanged.
\<close>

theorem use_alt_freqs_does_nothing:
  "alt_freqs (clocks clocked_state ! 0) = Some [150, 250, 350] \<and>
   use_alt_freqs (clocks clocked_state ! 0) = False \<and>
   tegra_clk_to_dvfs clocked_state 0 = Some 0 \<and>
   tegra_dvfs_use_alt_freqs_on_clk 1 example_env 0 True clocked_state =
     Inr (Some (- ENOENT, clocked_state))"
proof -
  have f: "tegra_clk_to_dvfs clocked_state 0 = Some 0"
    by (simp add: tegra_clk_to_dvfs_def rail_dvfs_def clocked_state_simps example_clock_def)
  then have "tegra_dvfs_use_alt_freqs_on_clk 1 example_env 0 True clocked_state =
     Inr (Some (- ENOENT, clocked_state))"
    by (simp add: tegra_dvfs_use_alt_freqs_on_clk_def)
  moreover have "alt_freqs (clocks clocked_state ! 0) = Some [150, 250, 350]"
    "use_alt_freqs (clocks clocked_state ! 0) = False"
    by (simp_all add: clocked_state_simps example_clock_def)
  ultimately show ?thesis using f by (intro conjI)
qed






end
